theory Spec2Isabelle
  imports Main "HOL-Library.Sublist"
begin

section \<open>Python strings\<close>

text \<open>
  A Python \<open>str\<close> is modelled as a \<open>string\<close>. A \<open>char\<close> stands for the Unicode code
  point of the same number, so the texts covered are those over the code points below 256.
  \<open>py_isspace\<close> is \<open>str.isspace\<close> on one character, which is also the class \<open>\s\<close> of the
  \<open>re\<close> module on \<open>str\<close> patterns and the set that \<open>str.strip()\<close> removes.
\<close>

abbreviation NL :: char where
  "NL \<equiv> CHR 0x0A"

abbreviation TAB :: char where
  "TAB \<equiv> CHR 0x09"

definition py_isspace :: "char \<Rightarrow> bool" where
  "py_isspace c = (c \<in> {CHR 0x09, CHR 0x0A, CHR 0x0B, CHR 0x0C, CHR 0x0D, CHR 0x1C, CHR 0x1D,
     CHR 0x1E, CHR 0x1F, CHR 0x20, CHR 0x85, CHR 0xA0})"

definition is_digit :: "char \<Rightarrow> bool" where
  "is_digit c = (c \<in> set ''0123456789'')"

definition is_upper :: "char \<Rightarrow> bool" where
  "is_upper c = (c \<in> set ''ABCDEFGHIJKLMNOPQRSTUVWXYZ'')"

definition is_lower :: "char \<Rightarrow> bool" where
  "is_lower c = (c \<in> set ''abcdefghijklmnopqrstuvwxyz'')"

text \<open>\<open>str.strip()\<close> with no argument.\<close>

definition lstrip :: "string \<Rightarrow> string" where
  "lstrip s = dropWhile py_isspace s"

definition rstrip :: "string \<Rightarrow> string" where
  "rstrip s = rev (dropWhile py_isspace (rev s))"

definition strip :: "string \<Rightarrow> string" where
  "strip s = rstrip (lstrip s)"

text \<open>\<open>a in b\<close> on two strings: \<open>a\<close> occurs in \<open>b\<close> as a contiguous block.\<close>

fun contains :: "string \<Rightarrow> string \<Rightarrow> bool" where
  "contains a [] = (a = [])"
| "contains a (c # cs) = (prefix a (c # cs) \<or> contains a cs)"

definition endswith :: "string \<Rightarrow> string \<Rightarrow> bool" where
  "endswith s a = suffix a s"

text \<open>
  \<open>s.replace(old, new)\<close> for a non-empty \<open>old\<close>: the occurrences are replaced from left
  to right, without overlap.
\<close>

fun str_replace :: "string \<Rightarrow> string \<Rightarrow> string \<Rightarrow> string" where
  "str_replace old new [] = []"
| "str_replace old new (c # cs) =
     (if old \<noteq> [] \<and> prefix old (c # cs)
      then new @ str_replace old new (drop (length old) (c # cs))
      else c # str_replace old new cs)"

text \<open>\<open>s.split("/")[-1]\<close>: what follows the last slash, the whole string when there is none.\<close>

definition last_segment :: "string \<Rightarrow> string" where
  "last_segment s = rev (takeWhile (\<lambda>c. c \<noteq> CHR ''/'') (rev s))"

section \<open>Regular expressions of the \<open>re\<close> module\<close>

text \<open>
  The fragment of the pattern language that the repository uses: one character out of a
  class, concatenation, alternation, greedy repetition \<open>{m,n}\<close> of a one-character class
  (\<open>*\<close> is \<open>{0,}\<close> and \<open>+\<close> is \<open>{1,}\<close>), the greedy option \<open>?\<close> and capturing groups.
  \<open>matches r s\<close> lists the ways in which \<open>r\<close> matches at the beginning of \<open>s\<close>, in the
  order in which the backtracking matcher tries them; each one is the captured groups
  and the text left after the match. The match that \<open>re\<close> reports is the first of the list.
\<close>

datatype regex =
    Chr "char \<Rightarrow> bool"
  | Eps
  | Seq regex regex
  | Alt regex regex
  | Rep "char \<Rightarrow> bool" nat "nat option"
  | Opt regex
  | Grp regex

fun ngroups :: "regex \<Rightarrow> nat" where
  "ngroups (Chr p) = 0"
| "ngroups Eps = 0"
| "ngroups (Seq a b) = ngroups a + ngroups b"
| "ngroups (Alt a b) = ngroups a + ngroups b"
| "ngroups (Rep p m mx) = 0"
| "ngroups (Opt a) = ngroups a"
| "ngroups (Grp a) = Suc (ngroups a)"

fun rep_matches :: "(char \<Rightarrow> bool) \<Rightarrow> nat \<Rightarrow> nat option \<Rightarrow> string \<Rightarrow> string list" where
  "rep_matches p m mx [] = (if m = 0 then [[]] else [])"
| "rep_matches p m mx (c # cs) =
     (if p c \<and> mx \<noteq> Some 0 then rep_matches p (m - 1) (map_option (\<lambda>k. k - 1) mx) cs else [])
     @ (if m = 0 then [c # cs] else [])"

fun matches :: "regex \<Rightarrow> string \<Rightarrow> (string option list \<times> string) list" where
  "matches (Chr p) s = (case s of [] \<Rightarrow> [] | c # cs \<Rightarrow> if p c then [([], cs)] else [])"
| "matches Eps s = [([], s)]"
| "matches (Seq a b) s =
     concat (map (\<lambda>(g, t). map (\<lambda>(h, u). (g @ h, u)) (matches b t)) (matches a s))"
| "matches (Alt a b) s =
     map (\<lambda>(g, t). (g @ replicate (ngroups b) None, t)) (matches a s)
     @ map (\<lambda>(g, t). (replicate (ngroups a) None @ g, t)) (matches b s)"
| "matches (Rep p m mx) s = map (\<lambda>t. ([], t)) (rep_matches p m mx s)"
| "matches (Opt a) s = matches a s @ [(replicate (ngroups a) None, s)]"
| "matches (Grp a) s =
     map (\<lambda>(g, t). (Some (take (length s - length t) s) # g, t)) (matches a s)"

text \<open>
  \<open>re.search\<close>: the leftmost position at which the pattern matches, with the start and
  the end of the match (\<open>m.start()\<close>, \<open>m.end()\<close>) and its groups. The first argument is
  the position of the text that is left.
\<close>

fun search_from :: "regex \<Rightarrow> nat \<Rightarrow> string \<Rightarrow> (nat \<times> nat \<times> string option list) option" where
  "search_from r i [] =
     (case matches r [] of [] \<Rightarrow> None | (g, t) # _ \<Rightarrow> Some (i, i, g))"
| "search_from r i (c # cs) =
     (case matches r (c # cs) of
        [] \<Rightarrow> search_from r (Suc i) cs
      | (g, t) # _ \<Rightarrow> Some (i, i + (length (c # cs) - length t), g))"

definition re_search :: "regex \<Rightarrow> string \<Rightarrow> (nat \<times> nat \<times> string option list) option" where
  "re_search r s = search_from r 0 s"

text \<open>
  \<open>re.sub\<close> with a replacement that has no group reference: the matches are taken from
  left to right without overlap. A match of the empty string is replaced and the next
  character copied; no pattern of this program matches the empty string.
\<close>

fun re_sub :: "regex \<Rightarrow> string \<Rightarrow> string \<Rightarrow> string" where
  "re_sub r repl [] = (if matches r [] = [] then [] else repl)"
| "re_sub r repl (c # cs) =
     (case matches r (c # cs) of
        [] \<Rightarrow> c # re_sub r repl cs
      | (g, t) # _ \<Rightarrow>
          if length t < length (c # cs) then repl @ re_sub r repl t
          else repl @ c # re_sub r repl cs)"

text \<open>A literal text as a pattern, and the same under \<open>re.IGNORECASE\<close>.\<close>

definition lit :: "string \<Rightarrow> regex" where
  "lit s = foldr (\<lambda>c r. Seq (Chr (\<lambda>x. x = c)) r) s Eps"

definition ascii_lower :: "char \<Rightarrow> char" where
  "ascii_lower c = (if is_upper c then char_of (of_char c + (32::nat)) else c)"

definition lit_i :: "string \<Rightarrow> regex" where
  "lit_i s = foldr (\<lambda>c r. Seq (Chr (\<lambda>x. ascii_lower x = ascii_lower c)) r) s Eps"

section \<open>TextExtractor.clean_text\<close>

definition is_nl :: "char \<Rightarrow> bool" where
  "is_nl c = (c = NL)"

definition is_blank :: "char \<Rightarrow> bool" where
  "is_blank c = (c = CHR '' '' \<or> c = TAB)"

text \<open>The six patterns of \<open>clean_text\<close>, in the order of the source.\<close>

definition hyphen_break :: regex where
  "hyphen_break =
     Seq (Chr (\<lambda>c. c = CHR ''-''))
       (Seq (Rep py_isspace 0 None) (Seq (Chr is_nl) (Rep py_isspace 0 None)))"

definition newlines2 :: regex where
  "newlines2 = Rep is_nl 2 None"

definition arxiv_ident :: regex where
  "arxiv_ident =
     Seq (lit ''arXiv:'')
       (Seq (Rep is_digit 4 (Some 4))
         (Seq (Chr (\<lambda>c. c = CHR ''.''))
           (Seq (Rep is_digit 4 (Some 5))
             (Opt (Grp (Seq (Chr (\<lambda>c. c = CHR ''v'')) (Rep is_digit 1 None)))))))"

definition blanks :: regex where
  "blanks = Rep is_blank 1 None"

definition indentation :: regex where
  "indentation = Seq (Chr is_nl) (Rep is_blank 1 None)"

definition newlines1 :: regex where
  "newlines1 = Rep is_nl 1 None"

definition clean_text :: "string \<Rightarrow> string" where
  "clean_text text =
     (if text = [] then []
      else
        let text = re_sub hyphen_break [] text;
            text = re_sub newlines2 [NL, NL] text;
            text = re_sub arxiv_ident [] text;
            text = re_sub blanks '' '' text;
            text = re_sub indentation [NL] text;
            text = re_sub newlines1 '' '' text
        in strip text)"

section \<open>TextExtractor.delete_references\<close>

text \<open>
  The two patterns are compiled with \<open>re.IGNORECASE\<close>. The pattern texts are ordinary (not
  raw) string literals, so \<open>\n\<close> in them is the newline character itself, and \<open>\[\<close>,
  \<open>\]\<close> and \<open>\:\<close> reach the \<open>re\<close> module as escaped literal characters.
\<close>

definition is_letter :: "char \<Rightarrow> bool" where
  "is_letter c = (is_upper c \<or> is_lower c)"

definition colon_or_nl :: "char \<Rightarrow> bool" where
  "colon_or_nl c = (c = CHR '':'' \<or> c = NL)"

definition pattern_start :: regex where
  "pattern_start =
     Alt (lit_i (NL # ''References'' @ [NL]))
       (Alt (lit_i (NL # ''Bibliography'' @ [NL]))
         (Seq (lit_i (NL # ''[1]''))
            (Seq (Rep (\<lambda>c. c = CHR '' '') 0 None) (Chr is_letter))))"

definition pattern_end :: regex where
  "pattern_end =
     Alt (Seq (lit_i (NL # ''Supplemental Material'')) (Rep colon_or_nl 0 None))
       (Alt (Seq (lit_i (NL # ''Supplemental Information'')) (Rep colon_or_nl 0 None))
         (Seq (lit_i (NL # ''Appendices'')) (Rep colon_or_nl 0 None)))"

definition delete_references :: "string \<Rightarrow> string" where
  "delete_references text =
     (let match_start = re_search pattern_start text;
          match_end = re_search pattern_end text
      in case match_start of
           Some (start, _) \<Rightarrow>
             (case match_end of
                Some (end', _) \<Rightarrow> take start text @ drop end' text
              | None \<Rightarrow> take start text)
         | None \<Rightarrow> text)"

text \<open>
  The same operation as the specification words it: the closing heading is looked for
  after the start of the references, not in the whole text.
\<close>

definition delete_references_spec :: "string \<Rightarrow> string" where
  "delete_references_spec text =
     (case re_search pattern_start text of
        None \<Rightarrow> text
      | Some (start, _) \<Rightarrow>
          (case search_from pattern_end start (drop start text) of
             Some (end', _) \<Rightarrow> take start text @ drop end' text
           | None \<Rightarrow> take start text))"

section \<open>Exceptions, the log and the file system\<close>

text \<open>
  An exception that leaves a function is a value \<open>Inl e\<close> of its result. The log is the
  list of the records a function emits, each a level and a message. The content folder is
  a map from path names to file contents; directories are not part of the model.
\<close>

datatype py_error =
    AttributeError
  | TypeError
  | ValidationError
  | FileNotFoundError
  | OSError
  | URLError
  | ExpatError
  | BackendError

datatype level = Info | Warning | Error

type_synonym log_record = "level \<times> string"

type_synonym fs = "string \<rightharpoonup> string"

definition bind_err :: "'e + 'a \<Rightarrow> ('a \<Rightarrow> 'e + 'b) \<Rightarrow> 'e + 'b" where
  "bind_err x f = (case x of Inl e \<Rightarrow> Inl e | Inr v \<Rightarrow> f v)"

fun map_err :: "('a \<Rightarrow> 'e + 'b) \<Rightarrow> 'a list \<Rightarrow> 'e + 'b list" where
  "map_err f [] = Inr []"
| "map_err f (x # xs) =
     (case f x of
        Inl e \<Rightarrow> Inl e
      | Inr y \<Rightarrow> (case map_err f xs of Inl e \<Rightarrow> Inl e | Inr ys \<Rightarrow> Inr (y # ys)))"

section \<open>The data model\<close>

text \<open>
  The two pydantic models of \<open>datamodel.py\<close>. The fields \<open>id\<close> and \<open>text\<close> carry a prime,
  the plain names being taken. A \<open>datetime\<close> is represented by the text it was parsed
  from.
\<close>

record Author =
  name :: string
  affiliation :: "string option"
  email :: "string option"

record ArxivPaper =
  id' :: string
  url :: string
  pdf_url :: string
  updated :: "string option"
  published :: "string option"
  title :: string
  summary :: string
  authors :: "Author list"
  comment :: "string option"
  n_pages :: "int option"
  n_figures :: "int option"
  categories :: "string list"
  pdf_loader :: "string option"
  text' :: string

section \<open>TextExtractor.get_text\<close>

text \<open>
  \<open>get_text\<close> returns either a \<open>str\<close> or, on its two early exits, the empty list \<open>[]\<close>.
  The path argument is \<open>None\<close> or a path name (\<open>str(pdf_path)\<close> of a \<open>str\<close> or of a
  \<open>Path\<close>). What the method takes from outside is a parameter, the backend:
  \<open>lazy_load backend loader content\<close> is the list of the page texts that the named loader
  of LangChain yields on a file of that content, or the exception it raises, and
  \<open>exists_error backend p\<close> tells whether \<open>Path(p).exists()\<close> raises \<open>OSError\<close>, as it does
  for a name that the operating system refuses (too long, or under a directory that may
  not be searched) and not for a file that is merely missing.
\<close>

datatype py_text = Str string | EmptyList

definition falsy :: "py_text \<Rightarrow> bool" where
  "falsy t = (case t of Str s \<Rightarrow> s = [] | EmptyList \<Rightarrow> True)"

record backend =
  lazy_load :: "string \<Rightarrow> string \<Rightarrow> py_error + string list"
  exists_error :: "string \<Rightarrow> bool"

definition available_loaders :: "string list" where
  "available_loaders = [''pypdf'', ''pdfminer'']"

definition py_str :: "string option \<Rightarrow> string" where
  "py_str pdf_path = (case pdf_path of None \<Rightarrow> ''None'' | Some s \<Rightarrow> s)"

definition check_pdf_path ::
  "backend \<Rightarrow> fs \<Rightarrow> string option \<Rightarrow> py_error + bool \<times> log_record list" where
  "check_pdf_path backend files pdf_path =
     (let pdf_path = py_str pdf_path
      in if pdf_path = []
         then Inr (False, [(Error, ''No PDF path provided. Returning an empty string for the text.'')])
         else if exists_error backend pdf_path then Inl OSError
         else Inr (files pdf_path \<noteq> None \<and> endswith pdf_path ''.pdf'', []))"

definition loader_message :: "string \<Rightarrow> string" where
  "loader_message loader =
     ''Loader '' @ loader @ '' not available. Available loaders: dict_keys([''
       @ [CHR 0x27] @ ''pypdf'' @ [CHR 0x27] @ '', '' @ [CHR 0x27] @ ''pdfminer'' @ [CHR 0x27]
       @ ''])''"

definition get_text ::
  "backend \<Rightarrow> fs \<Rightarrow> string option \<Rightarrow> string \<Rightarrow> (py_error + py_text) \<times> log_record list" where
  "get_text backend files pdf_path loader =
     (case check_pdf_path backend files pdf_path of
        Inl e \<Rightarrow> (Inl e, [])
      | Inr (ok, logged) \<Rightarrow>
          if \<not> ok then (Inr EmptyList, logged)
          else if loader \<notin> set available_loaders
          then (Inr EmptyList, logged @ [(Error, loader_message loader)])
          else
            (case files (py_str pdf_path) of
               None \<Rightarrow> (Inl FileNotFoundError, logged)
             | Some content \<Rightarrow>
                 (case lazy_load backend loader content of
                    Inl e \<Rightarrow> (Inl e, logged)
                  | Inr pages \<Rightarrow> (Inr (Str (concat pages)), logged))))"

section \<open>ArxivDownloader.download_pdf\<close>

text \<open>
  What \<open>session.get\<close> answers is a parameter: it raises a \<open>RequestException\<close>, or it
  returns a response with a status code and a body that arrives in chunks;
  \<open>stream_ok\<close> is false when the stream breaks (a \<open>RequestException\<close> again) after the
  chunks listed. \<open>joinpath\<close> is the operator \<open>/\<close> of \<open>pathlib\<close>, as the name of the path it
  builds. The calls of the logger are left out, and \<open>open\<close> succeeds: the folder was made
  when the fetcher was built.
\<close>

datatype http_result =
    RequestException
  | Response (status_code: nat) (chunks: "string list") (stream_ok: bool)

record downloader =
  data_folder :: string
  joinpath :: "string \<Rightarrow> string \<Rightarrow> string"
  session_get :: "string \<Rightarrow> http_result"

definition download_pdf ::
  "downloader \<Rightarrow> ArxivPaper \<Rightarrow> bool \<Rightarrow> fs \<Rightarrow> string option \<times> fs" where
  "download_pdf self arxiv_paper write files =
     (case session_get self (pdf_url arxiv_paper) of
        RequestException \<Rightarrow> (None, files)
      | Response status body ok \<Rightarrow>
          if 400 \<le> status \<and> status < 600 then (None, files)
          else
            let pdf_path = joinpath self (data_folder self) (id' arxiv_paper @ ''.pdf'')
            in if write
               then (if ok then (Some pdf_path, files(pdf_path \<mapsto> concat body))
                     else (None, files(pdf_path \<mapsto> concat body)))
               else (Some pdf_path, files))"

section \<open>The parsed feed\<close>

text \<open>
  \<open>xmltodict.parse\<close> gives \<open>None\<close> for an empty element, a \<open>str\<close> for an element that
  holds text only, a \<open>dict\<close> for an element with attributes or children, and a \<open>list\<close>
  where an element is repeated.
\<close>

datatype xml = XNone | XStr string | XDict "(string \<times> xml) list" | XList "xml list"

text \<open>The truth value of an object, \<open>d.get(key, default)\<close> and \<open>text in v\<close>.\<close>

definition truthy :: "xml \<Rightarrow> bool" where
  "truthy v =
     (case v of XNone \<Rightarrow> False | XStr s \<Rightarrow> s \<noteq> [] | XDict kvs \<Rightarrow> kvs \<noteq> [] | XList xs \<Rightarrow> xs \<noteq> [])"

definition dict_get :: "xml \<Rightarrow> string \<Rightarrow> xml \<Rightarrow> py_error + xml" where
  "dict_get d key dflt =
     (case d of
        XDict kvs \<Rightarrow> Inr (case map_of kvs key of Some v \<Rightarrow> v | None \<Rightarrow> dflt)
      | _ \<Rightarrow> Inl AttributeError)"

definition py_in :: "string \<Rightarrow> xml \<Rightarrow> py_error + bool" where
  "py_in a v =
     (case v of
        XNone \<Rightarrow> Inl TypeError
      | XStr s \<Rightarrow> Inr (contains a s)
      | XDict kvs \<Rightarrow> Inr (a \<in> set (map fst kvs))
      | XList xs \<Rightarrow> Inr (XStr a \<in> set xs))"

section \<open>ArxivFetcher.fetch: one entry of the feed\<close>

text \<open>
  \<open>_get_pages_and_figures\<close>, with the pattern \<open>(\d+) *pages*, *(\d+) *figures*\<close>. The
  limit that newer interpreters put on the number of digits \<open>int\<close> converts is not
  modelled.
\<close>

definition is_space :: "char \<Rightarrow> bool" where
  "is_space c = (c = CHR '' '')"

definition is_s :: "char \<Rightarrow> bool" where
  "is_s c = (c = CHR ''s'')"

definition pages_figures :: regex where
  "pages_figures =
     Seq (Grp (Rep is_digit 1 None))
       (Seq (Rep is_space 0 None)
         (Seq (lit ''page'')
           (Seq (Rep is_s 0 None)
             (Seq (lit '','')
               (Seq (Rep is_space 0 None)
                 (Seq (Grp (Rep is_digit 1 None))
                   (Seq (Rep is_space 0 None)
                     (Seq (lit ''figure'') (Rep is_s 0 None)))))))))"

definition py_int :: "string \<Rightarrow> int" where
  "py_int ds = foldl (\<lambda>n c. 10 * n + (int (of_char c) - 48)) 0 ds"

definition get_pages_and_figures :: "string \<Rightarrow> int option \<times> int option" where
  "get_pages_and_figures comment_text =
     (case re_search pages_figures comment_text of
        Some (_, _, [Some pages, Some figures]) \<Rightarrow> (Some (py_int pages), Some (py_int figures))
      | _ \<Rightarrow> (None, None))"

text \<open>
  The validation that pydantic runs when a model is built: a \<open>str\<close> field takes a
  \<open>str\<close> only, an optional one also \<open>None\<close>. Which texts pydantic reads as a
  \<open>datetime\<close> is a parameter, \<open>valid_datetime\<close>.
\<close>

definition as_str :: "xml \<Rightarrow> py_error + string" where
  "as_str v = (case v of XStr s \<Rightarrow> Inr s | _ \<Rightarrow> Inl ValidationError)"

definition as_opt_str :: "xml \<Rightarrow> py_error + string option" where
  "as_opt_str v = (case v of XStr s \<Rightarrow> Inr (Some s) | XNone \<Rightarrow> Inr None | _ \<Rightarrow> Inl ValidationError)"

definition as_opt_datetime :: "(string \<Rightarrow> bool) \<Rightarrow> xml \<Rightarrow> py_error + string option" where
  "as_opt_datetime valid_datetime v =
     (case v of
        XNone \<Rightarrow> Inr None
      | XStr s \<Rightarrow> if valid_datetime s then Inr (Some s) else Inl ValidationError
      | _ \<Rightarrow> Inl ValidationError)"

definition make_author :: "xml \<Rightarrow> py_error + Author" where
  "make_author author =
     bind_err (dict_get author ''name'' XNone) (\<lambda>n.
     bind_err (dict_get author ''affiliation'' XNone) (\<lambda>a.
     bind_err (as_str n) (\<lambda>n.
     bind_err (as_opt_str a) (\<lambda>a.
       Inr \<lparr>name = n, affiliation = a, email = None\<rparr>))))"

definition entry_authors :: "xml \<Rightarrow> py_error + Author list" where
  "entry_authors paper =
     bind_err (dict_get paper ''author'' (XList [])) (\<lambda>paper_authors.
       map_err make_author (case paper_authors of XList xs \<Rightarrow> xs | v \<Rightarrow> [v]))"

definition entry_categories :: "xml \<Rightarrow> py_error + xml list" where
  "entry_categories paper =
     bind_err (dict_get paper ''category'' (XList [])) (\<lambda>arxiv_categories.
       map_err (\<lambda>category. dict_get category ''@term'' XNone)
         (case arxiv_categories of XList xs \<Rightarrow> xs | v \<Rightarrow> [v]))"

definition entry_comment :: "xml \<Rightarrow> py_error + string" where
  "entry_comment paper =
     bind_err (dict_get paper ''arxiv:comment'' (XDict [])) (\<lambda>c.
     bind_err (dict_get c ''#text'' (XStr [])) (\<lambda>comment_value.
       case comment_value of XStr s \<Rightarrow> Inr s | _ \<Rightarrow> Inl TypeError))"

text \<open>
  Lines 141 to 183 of \<open>fetch\<close>: the record built from an entry that passed the checks,
  or the first exception on the way.
\<close>

definition make_paper ::
  "(string \<Rightarrow> bool) \<Rightarrow> xml \<Rightarrow> string \<Rightarrow> string \<Rightarrow> xml \<Rightarrow> py_error + ArxivPaper" where
  "make_paper valid_datetime paper arxiv_id url_id summary_value =
     bind_err (entry_authors paper) (\<lambda>authors_list.
     bind_err (entry_categories paper) (\<lambda>categories_list.
     bind_err (entry_comment paper) (\<lambda>comment_text.
       case get_pages_and_figures comment_text of
         (pages, figures) \<Rightarrow>
           bind_err (bind_err (dict_get paper ''updated'' XNone) (as_opt_datetime valid_datetime)) (\<lambda>upd.
           bind_err (bind_err (dict_get paper ''published'' XNone) (as_opt_datetime valid_datetime)) (\<lambda>pub.
           bind_err (bind_err (dict_get paper ''title'' XNone) as_str) (\<lambda>title_text.
           bind_err (as_str summary_value) (\<lambda>summary_text.
           bind_err (map_err as_str categories_list) (\<lambda>cats.
             Inr \<lparr>id' = arxiv_id, url = url_id, pdf_url = str_replace ''abs'' ''pdf'' url_id,
                  updated = upd, published = pub, title = title_text,
                  summary = summary_text, authors = authors_list,
                  comment = Some comment_text, n_pages = pages, n_figures = figures,
                  categories = cats, pdf_loader = None, text' = []\<rparr>))))))))"

text \<open>
  A list of the program holds entries of the feed, records, or both: \<open>new_papers\<close> is
  at times the page itself. \<open>check_entry\<close> is the body of the loop over the page up to
  the point where the record is appended: the entry is rejected (lines 117 to 134),
  skipped as already fetched (line 138), or accepted with its record. An element that is
  a record has no method \<open>get\<close>.
\<close>

datatype item = Raw xml | Paper ArxivPaper

datatype verdict = Rejected | Duplicate | Accepted ArxivPaper

definition check_entry :: "(string \<Rightarrow> bool) \<Rightarrow> item \<Rightarrow> string set \<Rightarrow> py_error + verdict" where
  "check_entry valid_datetime x fetched =
     (case x of
        Paper _ \<Rightarrow> Inl AttributeError
      | Raw paper \<Rightarrow>
          bind_err (dict_get paper ''title'' (XStr [])) (\<lambda>t.
          bind_err (py_in ''Error'' t) (\<lambda>error_in_title.
            if error_in_title then Inr Rejected
            else
              bind_err (dict_get paper ''id'' XNone) (\<lambda>url_id.
                if \<not> truthy url_id then Inr Rejected
                else
                  bind_err (py_in ''arxiv.org'' url_id) (\<lambda>valid.
                    if \<not> valid then Inr Rejected
                    else
                      bind_err (dict_get paper ''summary'' XNone) (\<lambda>summary_value.
                        if \<not> truthy summary_value then Inr Rejected
                        else
                          (case url_id of
                             XStr u \<Rightarrow>
                               let arxiv_id = str_replace ''.pdf'' [] (last_segment u)
                               in if arxiv_id \<in> fetched then Inr Duplicate
                                  else
                                    bind_err (make_paper valid_datetime paper arxiv_id u summary_value)
                                      (\<lambda>p. Inr (Accepted p))
                           | _ \<Rightarrow> Inl AttributeError)))))))"

section \<open>ArxivFetcher.fetch: the loops and the ledger\<close>

text \<open>
  The ledger file \<open>fetched_arxiv_ids.txt\<close> is \<open>None\<close> when it does not exist and its
  content otherwise. Reading it in text mode ends a line at a line feed and at a
  carriage return; the property \<open>fetched_ids\<close> keeps the stripped lines that are not empty.
\<close>

fun split_lines :: "string \<Rightarrow> string list" where
  "split_lines [] = [[]]"
| "split_lines (c # cs) =
     (if c = NL \<or> c = CHR 0x0D then [] # split_lines cs
      else (case split_lines cs of [] \<Rightarrow> [[c]] | l # ls \<Rightarrow> (c # l) # ls))"

definition fetched_ids_of :: "string option \<Rightarrow> string set" where
  "fetched_ids_of ledger =
     (case ledger of
        None \<Rightarrow> {}
      | Some content \<Rightarrow> set (filter (\<lambda>l. l \<noteq> []) (map strip (split_lines content))))"

text \<open>Opening the file for appending creates it; one line is written for each record.\<close>

definition append_ids :: "string option \<Rightarrow> ArxivPaper list \<Rightarrow> string option" where
  "append_ids ledger ps =
     Some ((case ledger of None \<Rightarrow> [] | Some content \<Rightarrow> content) @ concat (map (\<lambda>p. id' p @ [NL]) ps))"

text \<open>
  The fetcher: \<open>max_results\<close>, and the two parts of the world it calls. \<open>urlopen k start n\<close>
  is the answer to the request number \<open>k\<close> of a call, for \<open>start=start\<close> and
  \<open>max_results=n\<close>: the document that \<open>xmltodict.parse\<close> returns, or the exception that
  the request or the parser raises. \<open>valid_dt\<close> tells which texts pydantic reads as a
  \<open>datetime\<close>.
\<close>

record fetcher =
  max_results :: int
  urlopen :: "nat \<Rightarrow> int \<Rightarrow> int \<Rightarrow> py_error + xml"
  valid_dt :: "string \<Rightarrow> bool"

text \<open>
  The lists of \<open>fetch\<close> live in a store, since \<open>new_papers = papers\<close> makes two variables
  name one list, to which \<open>append\<close> then adds while the loop runs over it. \<open>heap\<close> maps
  an address to the list stored there, \<open>next_addr\<close> is the first address not in use, and
  \<open>new_papers\<close> is the address that the variable of this name holds.
\<close>

record fetch_state =
  heap :: "nat \<Rightarrow> item list"
  next_addr :: nat
  new_papers :: nat
  fetched_ids :: "string set"

definition new_list :: "item list \<Rightarrow> fetch_state \<Rightarrow> nat \<times> fetch_state" where
  "new_list xs s =
     (next_addr s, s\<lparr>heap := (heap s)(next_addr s := xs), next_addr := Suc (next_addr s)\<rparr>)"

definition batch :: "fetch_state \<Rightarrow> item list" where
  "batch s = heap s (new_papers s)"

text \<open>
  One round of \<open>for paper in papers\<close>, where \<open>papers\<close> is the address of the page: the
  new state, and whether the loop is left by \<open>break\<close>.
\<close>

definition entry_step ::
  "fetcher \<Rightarrow> nat \<Rightarrow> item \<Rightarrow> fetch_state \<Rightarrow> py_error + fetch_state \<times> bool" where
  "entry_step self papers x s =
     (case check_entry (valid_dt self) x (fetched_ids s) of
        Inl e \<Rightarrow> Inl e
      | Inr Rejected \<Rightarrow> Inr (s\<lparr>new_papers := papers\<rparr>, False)
      | Inr Duplicate \<Rightarrow> Inr (s, False)
      | Inr (Accepted p) \<Rightarrow>
          (let s' = s\<lparr>heap := (heap s)(new_papers s := batch s @ [Paper p]),
                      fetched_ids := insert (id' p) (fetched_ids s)\<rparr>
           in Inr (s', max_results self \<le> int (length (batch s')))))"

definition is_raw :: "item \<Rightarrow> bool" where
  "is_raw x = (case x of Raw _ \<Rightarrow> True | Paper _ \<Rightarrow> False)"

definition is_paper :: "item \<Rightarrow> bool" where
  "is_paper x = (case x of Raw _ \<Rightarrow> False | Paper _ \<Rightarrow> True)"

function for_loop :: "fetcher \<Rightarrow> nat \<Rightarrow> nat \<Rightarrow> fetch_state \<Rightarrow> py_error + fetch_state" where
  "for_loop self papers i s =
     (if i < length (heap s papers)
      then (case entry_step self papers (heap s papers ! i) s of
              Inl e \<Rightarrow> Inl e
            | Inr (s', stop) \<Rightarrow> if stop then Inr s' else for_loop self papers (Suc i) s')
      else Inr s)"
  by pat_completeness auto
termination
proof (relation "measure (\<lambda>(self, papers, i, s). length (filter is_raw (drop i (heap s papers))))")
  show "wf (measure (\<lambda>(self, papers, i, s). length (filter is_raw (drop i (heap s papers)))))"
    by simp
next
  fix self :: fetcher and papers i :: nat and s :: fetch_state and x2 s' and stop :: bool
  assume i: "i < length (heap s papers)"
    and step: "entry_step self papers (heap s papers ! i) s = Inr x2"
    and x2: "(s', stop) = x2"
  from step x2 have raw: "is_raw (heap s papers ! i)"
    by (cases "heap s papers ! i") (simp_all add: entry_step_def check_entry_def is_raw_def)
  from step x2 have "\<exists>ps. heap s' papers = heap s papers @ ps \<and> filter is_raw ps = []"
    by (auto simp: entry_step_def batch_def Let_def is_raw_def
          split: sum.splits verdict.splits if_splits)
  then obtain ps where ps: "heap s' papers = heap s papers @ ps" "filter is_raw ps = []"
    by blast
  have "drop i (heap s papers) = heap s papers ! i # drop (Suc i) (heap s papers)"
    using i by (simp add: Cons_nth_drop_Suc)
  then have "length (filter is_raw (drop (Suc i) (heap s' papers)))
      < length (filter is_raw (drop i (heap s papers)))"
    using raw ps i by simp
  then show "((self, papers, Suc i, s'), self, papers, i, s)
      \<in> measure (\<lambda>(self, papers, i, s). length (filter is_raw (drop i (heap s papers))))"
    by simp
qed

text \<open>
  The loop \<open>while len(new_papers) < self.max_results\<close>. It ends in one of three ways: an
  exception, the \<open>return []\<close> of line 109 on a page without entries, or the condition
  turning false. It need not end at all: a feed that keeps answering with entries
  already fetched is asked for ever, and then the value is \<open>None\<close>.
\<close>

datatype loop_end = Raised py_error | Returned_empty | Completed fetch_state

definition feed_entries :: "xml \<Rightarrow> py_error + xml" where
  "feed_entries data_dict =
     bind_err (dict_get data_dict ''feed'' (XDict [])) (\<lambda>feed. dict_get feed ''entry'' (XList []))"

definition as_list :: "xml \<Rightarrow> item list" where
  "as_list v = (case v of XList xs \<Rightarrow> map Raw xs | _ \<Rightarrow> [Raw v])"

partial_function (option) while_loop ::
  "fetcher \<Rightarrow> int \<Rightarrow> nat \<Rightarrow> int \<Rightarrow> fetch_state \<Rightarrow> loop_end option" where
  "while_loop self batch_size k start_index s =
     (if int (length (batch s)) < max_results self
      then
        (let remaining = max_results self - int (length (batch s));
             current_batch_size = min batch_size remaining
         in case bind_err (urlopen self k start_index current_batch_size) feed_entries of
              Inl e \<Rightarrow> Some (Raised e)
            | Inr v \<Rightarrow>
                if \<not> truthy v then Some Returned_empty
                else
                  (case new_list (as_list v) s of
                     (papers, s1) \<Rightarrow>
                       (case for_loop self papers 0 s1 of
                          Inl e \<Rightarrow> Some (Raised e)
                        | Inr s2 \<Rightarrow> while_loop self batch_size (Suc k) (start_index + batch_size) s2)))
      else Some (Completed s))"

declare while_loop.simps [code]

text \<open>
  The end of \<open>fetch\<close>, lines 193 to 203. The test \<open>p.id is not None\<close> holds of every
  record, \<open>id\<close> being a \<open>str\<close> field.
\<close>

definition papers_of :: "item list \<Rightarrow> ArxivPaper list" where
  "papers_of xs = concat (map (\<lambda>x. case x of Paper p \<Rightarrow> [p] | Raw _ \<Rightarrow> []) xs)"

definition finish :: "item list \<Rightarrow> string option \<Rightarrow> ArxivPaper list \<times> string option" where
  "finish xs ledger =
     (let ledger' = (if list_all is_paper xs then append_ids ledger (papers_of xs) else ledger)
      in if \<not> list_all is_paper xs then ([], ledger') else (papers_of xs, ledger'))"

definition initial_state :: "string set \<Rightarrow> fetch_state" where
  "initial_state ids = \<lparr>heap = (\<lambda>_. []), next_addr = 1, new_papers = 0, fetched_ids = ids\<rparr>"

text \<open>
  \<open>fetch\<close>: what the call returns or raises, and the ledger file it leaves; \<open>None\<close> when
  the call does not end.
\<close>

definition fetch ::
  "fetcher \<Rightarrow> int \<Rightarrow> string option \<Rightarrow> ((py_error + ArxivPaper list) \<times> string option) option" where
  "fetch self batch_size ledger =
     (case while_loop self batch_size 0 0 (initial_state (fetched_ids_of ledger)) of
        None \<Rightarrow> None
      | Some (Raised e) \<Rightarrow> Some (Inl e, ledger)
      | Some Returned_empty \<Rightarrow> Some (Inr [], ledger)
      | Some (Completed s) \<Rightarrow>
          (case finish (batch s) ledger of (ps, ledger') \<Rightarrow> Some (Inr ps, ledger')))"

text \<open>
  The states in which a call of \<open>fetch\<close> comes to the test of its \<open>while\<close> loop:
  \<open>reaches self batch_size ledger k start_index s\<close> holds when the call, started on the
  ledger file \<open>ledger\<close>, is about to send request number \<open>k\<close> in state \<open>s\<close>.
\<close>

inductive reaches :: "fetcher \<Rightarrow> int \<Rightarrow> string option \<Rightarrow> nat \<Rightarrow> int \<Rightarrow> fetch_state \<Rightarrow> bool"
  for self :: fetcher and b :: int and ledger :: "string option" where
  reaches_start: "reaches self b ledger 0 0 (initial_state (fetched_ids_of ledger))"
| reaches_next:
    "reaches self b ledger k st s \<Longrightarrow> int (length (batch s)) < max_results self \<Longrightarrow>
     bind_err (urlopen self k st (min b (max_results self - int (length (batch s))))) feed_entries = Inr v \<Longrightarrow>
     truthy v \<Longrightarrow> new_list (as_list v) s = (papers, s1) \<Longrightarrow> for_loop self papers 0 s1 = Inr s2 \<Longrightarrow>
     reaches self b ledger (Suc k) (st + b) s2"

text \<open>
  What the loops keep true, given the identifiers \<open>L\<close> of the ledger at the start: they
  stay among \<open>fetched_ids\<close>, and the records of every list have identifiers that are in
  \<open>fetched_ids\<close>, not in \<open>L\<close>, and different from one another.
\<close>

definition fetch_inv :: "string set \<Rightarrow> fetch_state \<Rightarrow> bool" where
  "fetch_inv L s \<longleftrightarrow>
     L \<subseteq> fetched_ids s \<and>
     (\<forall>a p. p \<in> set (papers_of (heap s a)) \<longrightarrow> id' p \<in> fetched_ids s \<and> id' p \<notin> L) \<and>
     (\<forall>a. distinct (map id' (papers_of (heap s a))))"

section \<open>download_pattern_papers\<close>

text \<open>
  The pipeline holds the content folder, the list \<open>files\<close> of the paths kept and the list
  \<open>all_papers\<close> of the records kept. The pattern is a parameter: \<open>pattern t\<close> tells
  whether \<open>pattern.search(t)\<close> finds a match. \<open>process_paper\<close> is one round of the loop
  \<open>for paper in papers\<close>, lines 270 to 290; \<open>unlink\<close> raises when the path is \<open>None\<close> or
  names no file. \<open>fetcher.download_pdf\<close> is the method \<open>download_pdf\<close> above, on the session
  and the data folder of the fetcher. The ledger file is kept apart from the content
  folder: its name is not that of a PDF file written there.
\<close>

type_synonym pipeline_state = "fs \<times> string option list \<times> ArxivPaper list"

definition unlink :: "string option \<Rightarrow> fs \<Rightarrow> py_error + fs" where
  "unlink pdf_path files =
     (case pdf_path of
        None \<Rightarrow> Inl AttributeError
      | Some p \<Rightarrow> if files p = None then Inl FileNotFoundError else Inr (files(p := None)))"

definition process_paper ::
  "downloader \<Rightarrow> backend \<Rightarrow> string \<Rightarrow> (string \<Rightarrow> bool)
     \<Rightarrow> ArxivPaper \<Rightarrow> pipeline_state \<Rightarrow> py_error + pipeline_state" where
  "process_paper fetcher backend loader pattern paper st =
     (case st of
        (folder, files, all_papers) \<Rightarrow>
          (case download_pdf fetcher paper True folder of
             (pdf_path, folder1) \<Rightarrow>
               (case fst (get_text backend folder1 pdf_path loader) of
                  Inl e \<Rightarrow> Inl e
                | Inr t \<Rightarrow>
                    if falsy t then Inr (folder1, files, all_papers)
                    else
                      (case t of
                         EmptyList \<Rightarrow> Inl TypeError
                       | Str body \<Rightarrow>
                           if \<not> pattern body
                           then bind_err (unlink pdf_path folder1)
                                  (\<lambda>folder2. Inr (folder2, files, all_papers))
                           else
                             Inr (folder1, files @ [pdf_path],
                                  all_papers
                                    @ [paper\<lparr>text' := clean_text (delete_references body)\<rparr>])))))"

fun process_papers ::
  "downloader \<Rightarrow> backend \<Rightarrow> string \<Rightarrow> (string \<Rightarrow> bool)
     \<Rightarrow> ArxivPaper list \<Rightarrow> pipeline_state \<Rightarrow> py_error + pipeline_state" where
  "process_papers fetcher backend loader pattern [] st = Inr st"
| "process_papers fetcher backend loader pattern (paper # papers) st =
     (case process_paper fetcher backend loader pattern paper st of
        Inl e \<Rightarrow> Inl e
      | Inr st' \<Rightarrow> process_papers fetcher backend loader pattern papers st')"

text \<open>
  The outer loop, \<open>n_fetch_batches\<close> calls of \<open>fetch\<close>. \<open>self j\<close> is the fetcher during
  call number \<open>j\<close>, with the answers that the feed gives then. The result is the
  ledger file, the content folder and the two lists; \<open>None\<close> when a call of \<open>fetch\<close> does
  not end.
\<close>

fun fetch_batches ::
  "nat \<Rightarrow> nat \<Rightarrow> (nat \<Rightarrow> fetcher) \<Rightarrow> int \<Rightarrow> downloader
     \<Rightarrow> backend \<Rightarrow> string \<Rightarrow> (string \<Rightarrow> bool)
     \<Rightarrow> string option \<times> pipeline_state \<Rightarrow> (py_error + string option \<times> pipeline_state) option" where
  "fetch_batches 0 j self batch_size fetcher backend loader pattern st = Some (Inr st)"
| "fetch_batches (Suc n) j self batch_size fetcher backend loader pattern st =
     (case st of
        (ledger, pst) \<Rightarrow>
          (case fetch (self j) batch_size ledger of
             None \<Rightarrow> None
           | Some (Inl e, ledger') \<Rightarrow> Some (Inl e)
           | Some (Inr papers, ledger') \<Rightarrow>
               (case process_papers fetcher backend loader pattern papers pst of
                  Inl e \<Rightarrow> Some (Inl e)
                | Inr pst' \<Rightarrow>
                    fetch_batches n (Suc j) self batch_size fetcher backend loader pattern
                      (ledger', pst'))))"

definition download_pattern_papers ::
  "nat \<Rightarrow> (nat \<Rightarrow> fetcher) \<Rightarrow> int \<Rightarrow> downloader
     \<Rightarrow> backend \<Rightarrow> string \<Rightarrow> (string \<Rightarrow> bool)
     \<Rightarrow> string option \<Rightarrow> fs \<Rightarrow> (py_error + string option \<times> pipeline_state) option" where
  "download_pattern_papers n_fetch_batches self batch_size fetcher backend loader pattern ledger folder =
     fetch_batches n_fetch_batches 0 self batch_size fetcher backend loader pattern
       (ledger, folder, [], [])"

subsection \<open>What a run keeps\<close>

text \<open>
  The notions in which the result of a run is stated. \<open>pdf_name\<close> is the path at which
  \<open>download_pdf\<close> stores the PDF of a record. \<open>extracted\<close> is what \<open>get_text\<close> gives after
  the download of a record into an empty folder; lemma \<open>extracted_any_folder\<close> below shows
  that the content of the folder at the time of the download makes no difference.
\<close>

definition pdf_name :: "downloader \<Rightarrow> ArxivPaper \<Rightarrow> string" where
  "pdf_name fetcher paper = joinpath fetcher (data_folder fetcher) (id' paper @ ''.pdf'')"

definition extracted ::
  "downloader \<Rightarrow> backend \<Rightarrow> string \<Rightarrow> ArxivPaper
     \<Rightarrow> py_error + py_text" where
  "extracted fetcher backend loader paper =
     (case download_pdf fetcher paper True Map.empty of
        (pdf_path, folder1) \<Rightarrow> fst (get_text backend folder1 pdf_path loader))"

definition text_of :: "py_error + py_text \<Rightarrow> string" where
  "text_of r = (case r of Inr (Str body) \<Rightarrow> body | _ \<Rightarrow> [])"

text \<open>
  A record is \<open>matching\<close> when its text is not empty and the pattern finds a match in it,
  \<open>rejected\<close> when its text is not empty and the pattern finds none. \<open>with_text\<close> is the
  record with its text attached, after \<open>delete_references\<close> and \<open>clean_text\<close>.
\<close>

definition matching ::
  "downloader \<Rightarrow> backend \<Rightarrow> string \<Rightarrow> (string \<Rightarrow> bool)
     \<Rightarrow> ArxivPaper \<Rightarrow> bool" where
  "matching fetcher backend loader pattern paper =
     (let body = text_of (extracted fetcher backend loader paper) in body \<noteq> [] \<and> pattern body)"

definition rejected ::
  "downloader \<Rightarrow> backend \<Rightarrow> string \<Rightarrow> (string \<Rightarrow> bool)
     \<Rightarrow> ArxivPaper \<Rightarrow> bool" where
  "rejected fetcher backend loader pattern paper =
     (let body = text_of (extracted fetcher backend loader paper) in body \<noteq> [] \<and> \<not> pattern body)"

definition with_text ::
  "downloader \<Rightarrow> backend \<Rightarrow> string \<Rightarrow> ArxivPaper \<Rightarrow> ArxivPaper" where
  "with_text fetcher backend loader paper =
     paper\<lparr>text' := clean_text (delete_references (text_of (extracted fetcher backend loader paper)))\<rparr>"

text \<open>
  The records that \<open>n\<close> calls of \<open>fetch\<close> return, one batch after the other, with the
  ledger file after the last call; \<open>None\<close> when a call raises or does not end.
\<close>

fun fetch_all ::
  "nat \<Rightarrow> nat \<Rightarrow> (nat \<Rightarrow> fetcher) \<Rightarrow> int \<Rightarrow> string option \<Rightarrow> (ArxivPaper list \<times> string option) option" where
  "fetch_all 0 j self batch_size ledger = Some ([], ledger)"
| "fetch_all (Suc n) j self batch_size ledger =
     (case fetch (self j) batch_size ledger of
        Some (Inr ps, ledger1) \<Rightarrow>
          (case fetch_all n (Suc j) self batch_size ledger1 of
             Some (qs, ledger') \<Rightarrow> Some (ps @ qs, ledger')
           | None \<Rightarrow> None)
      | _ \<Rightarrow> None)"

section \<open>Inputs for the examples\<close>

text \<open>
  A feed that answers the first request with one page and every later one with no entry,
  an entry that passes the checks with the record built from it, and an entry without
  summary.
\<close>

definition entry_ok :: "string \<Rightarrow> xml" where
  "entry_ok i =
     XDict [(''id'', XStr (''http://arxiv.org/abs/'' @ i)), (''title'', XStr ''T''),
            (''summary'', XStr ''S'')]"

definition entry_no_summary :: "string \<Rightarrow> xml" where
  "entry_no_summary i =
     XDict [(''id'', XStr (''http://arxiv.org/abs/'' @ i)), (''title'', XStr ''T'')]"

definition one_page :: "xml \<Rightarrow> nat \<Rightarrow> int \<Rightarrow> int \<Rightarrow> py_error + xml" where
  "one_page page k start n =
     (if k = 0 then Inr (XDict [(''feed'', XDict [(''entry'', page)])])
      else Inr (XDict [(''feed'', XDict [(''@xmlns'', XStr ''http://www.w3.org/2005/Atom'')])]))"

definition feed_of :: "int \<Rightarrow> xml \<Rightarrow> fetcher" where
  "feed_of m page = \<lparr>max_results = m, urlopen = one_page page, valid_dt = (\<lambda>_. True)\<rparr>"

definition paper_of :: "string \<Rightarrow> ArxivPaper" where
  "paper_of i =
     \<lparr>id' = i, url = ''http://arxiv.org/abs/'' @ i, pdf_url = ''http://arxiv.org/pdf/'' @ i,
      updated = None, published = None, title = ''T'', summary = ''S'', authors = [],
      comment = Some [], n_pages = None, n_figures = None, categories = [],
      pdf_loader = None, text' = []\<rparr>"

text \<open>
  A backend whose loaders give the content of the file as one page and whose operating
  system refuses a file name of more than 255 characters, a server of three PDF files
  (with the word DMFT, without it, and empty), the fetcher's folder \<open>data\<close> with \<open>/\<close> as the
  join of two path names, the pattern \<open>re.compile("DMFT")\<close>, and a feed of three entries
  that answers every call of \<open>fetch\<close> in the same way.
\<close>

definition name_too_long :: "string \<Rightarrow> bool" where
  "name_too_long p = (255 < length (last_segment p))"

definition text_of_file :: backend where
  "text_of_file = \<lparr>lazy_load = (\<lambda>loader content. Inr [content]), exists_error = name_too_long\<rparr>"

definition no_files :: fs where
  "no_files = Map.empty"

definition pdf_server :: "string \<Rightarrow> http_result" where
  "pdf_server u =
     (if u = ''http://arxiv.org/pdf/1111'' then Response 200 [''A DMFT '', ''study''] True
      else if u = ''http://arxiv.org/pdf/2222'' then Response 200 [''A study''] True
      else if u = ''http://arxiv.org/pdf/3333'' then Response 200 [] True
      else RequestException)"

definition slash :: "string \<Rightarrow> string \<Rightarrow> string" where
  "slash d f = d @ ''/'' @ f"

definition local_folder :: downloader where
  "local_folder = \<lparr>data_folder = ''data'', joinpath = slash, session_get = pdf_server\<rparr>"

definition has_dmft :: "string \<Rightarrow> bool" where
  "has_dmft t = contains ''DMFT'' t"

definition three_entries :: xml where
  "three_entries = XList [entry_ok ''1111'', entry_ok ''2222'', entry_ok ''3333'']"

definition every_time :: "fetcher \<Rightarrow> nat \<Rightarrow> fetcher" where
  "every_time f j = f"

definition one_pdf :: fs where
  "one_pdf = no_files(''data/1111.pdf'' \<mapsto> ''A DMFT study'')"

section \<open>Properties of the text cleaning\<close>

subsection \<open>Matches of a repetition\<close>

lemma rep_matches_shorter:
  "t \<in> set (rep_matches p m mx s) \<Longrightarrow> length t \<le> length s \<and> (0 < m \<longrightarrow> length t < length s)"
proof (induction s arbitrary: m mx)
  case Nil
  then show ?case by (simp split: if_splits)
next
  case (Cons c cs)
  from Cons.prems
  consider "t \<in> set (rep_matches p (m - 1) (map_option (\<lambda>k. k - 1) mx) cs)"
    | "m = 0" "t = c # cs"
    by (auto split: if_splits)
  then show ?case
  proof cases
    case 1
    from Cons.IH [OF this] show ?thesis by simp
  next
    case 2
    then show ?thesis by simp
  qed
qed

lemma rep_matches_zero_nonempty: "rep_matches p 0 mx s \<noteq> []"
  by (cases s) simp_all

lemma newlines1_at_newline: "matches newlines1 (NL # cs) \<noteq> []"
  by (simp add: newlines1_def is_nl_def rep_matches_zero_nonempty)

lemma newlines1_elsewhere: "c \<noteq> NL \<Longrightarrow> matches newlines1 (c # cs) = []"
  by (simp add: newlines1_def is_nl_def)

lemma newlines1_shorter: "(g, t) \<in> set (matches newlines1 s) \<Longrightarrow> length t < length s"
  using rep_matches_shorter [of t is_nl 1 None s] by (auto simp: newlines1_def)

lemma re_sub_newlines1_flat: "NL \<notin> set (re_sub newlines1 '' '' s)"
proof (induction s rule: length_induct)
  case (1 s)
  show ?case
  proof (cases s)
    case Nil
    then show ?thesis by simp
  next
    case (Cons c cs)
    show ?thesis
    proof (cases "matches newlines1 (c # cs)")
      case Nil
      then have "c \<noteq> NL" using newlines1_at_newline [of cs] by auto
      moreover have "NL \<notin> set (re_sub newlines1 '' '' cs)" using 1 Cons by simp
      ultimately show ?thesis using Nil Cons by simp
    next
      case (Cons m ms)
      obtain g t where m: "m = (g, t)" by (cases m)
      have "length t < length (c # cs)"
        using newlines1_shorter [of g t "c # cs"] Cons m by simp
      moreover from this have "NL \<notin> set (re_sub newlines1 '' '' t)"
        using 1 \<open>s = c # cs\<close> by simp
      ultimately show ?thesis using Cons m \<open>s = c # cs\<close> by simp
    qed
  qed
qed

lemma set_strip: "set (strip s) \<subseteq> set s"
proof -
  have "set (rev (dropWhile py_isspace (rev (dropWhile py_isspace s)))) \<subseteq> set (dropWhile py_isspace s)"
    using set_dropWhileD [of _ py_isspace "rev (dropWhile py_isspace s)"] by auto
  then show ?thesis
    using set_dropWhileD [of _ py_isspace s] by (auto simp: strip_def rstrip_def lstrip_def)
qed

lemma rstrip_prefix: "\<exists>w. x = rstrip x @ w"
proof -
  have "x = rev (dropWhile py_isspace (rev x)) @ rev (takeWhile py_isspace (rev x))"
    by (metis rev_append rev_rev_ident takeWhile_dropWhile_id)
  then have "x = rstrip x @ rev (takeWhile py_isspace (rev x))"
    by (simp add: rstrip_def)
  then show ?thesis ..
qed

lemma strip_ends:
  assumes "strip s = c # cs"
  shows "\<not> py_isspace c \<and> \<not> py_isspace (last (c # cs))"
proof -
  let ?x = "lstrip s"
  obtain w where w: "?x = rstrip ?x @ w" using rstrip_prefix by blast
  have x: "?x = c # cs @ w" using w assms by (simp add: strip_def)
  then have "\<not> py_isspace (hd (dropWhile py_isspace s))"
    using hd_dropWhile [of py_isspace s] by (simp add: lstrip_def)
  then have c: "\<not> py_isspace c" using x by (simp add: lstrip_def)
  have d: "dropWhile py_isspace (rev ?x) = rev (c # cs)"
    using assms by (simp add: strip_def rstrip_def rev_swap)
  have ne: "dropWhile py_isspace (rev ?x) \<noteq> []" using d by simp
  have "\<not> py_isspace (hd (dropWhile py_isspace (rev ?x)))" using hd_dropWhile [OF ne] .
  then have "\<not> py_isspace (hd (rev (c # cs)))" unfolding d .
  then have "\<not> py_isspace (last (c # cs))" by (metis hd_rev)
  with c show ?thesis by simp
qed

subsection \<open>The result of \<open>clean_text\<close>\<close>

text \<open>
  Claim C8. \<open>clean_text\<close> joins the word broken by a hyphen at a line wrap,
  \<open>"super-\nconductivity"\<close> giving \<open>"superconductivity"\<close>; and on \<open>"a\n\n\n\nb"\<close> the run
  of four newlines is first collapsed to two (one blank line), which the last
  substitution then flattens to a single space, giving \<open>"a b"\<close>.
\<close>

theorem clean_text_examples:
  "clean_text ''super-\<newline>conductivity'' = ''superconductivity'' \<and>
   re_sub newlines2 [NL, NL] ''a\<newline>\<newline>\<newline>\<newline>b'' = ''a\<newline>\<newline>b'' \<and>
   re_sub newlines1 '' '' ''a\<newline>\<newline>b'' = ''a b'' \<and>
   clean_text ''a\<newline>\<newline>\<newline>\<newline>b'' = ''a b''"
  by code_simp

text \<open>
  Claim C9. For every input, the result of \<open>clean_text\<close> holds no newline character, and
  when it is not empty neither its first nor its last character is whitespace.
\<close>

theorem clean_text_flat_stripped:
  "NL \<notin> set (clean_text text) \<and>
   (\<forall>c cs. clean_text text = c # cs \<longrightarrow> \<not> py_isspace c \<and> \<not> py_isspace (last (c # cs)))"
proof (cases "text = []")
  case True
  then show ?thesis by (simp add: clean_text_def)
next
  case False
  define x where "x = re_sub indentation [NL] (re_sub blanks '' '' (re_sub arxiv_ident []
      (re_sub newlines2 [NL, NL] (re_sub hyphen_break [] text))))"
  have ct: "clean_text text = strip (re_sub newlines1 '' '' x)"
    using False by (simp add: clean_text_def x_def Let_def)
  have "NL \<notin> set (clean_text text)"
    using set_strip [of "re_sub newlines1 '' '' x"] re_sub_newlines1_flat [of x] ct by auto
  moreover have "\<forall>c cs. clean_text text = c # cs \<longrightarrow> \<not> py_isspace c \<and> \<not> py_isspace (last (c # cs))"
    using strip_ends ct by metis
  ultimately show ?thesis by blast
qed

theorem clean_text_flat_stripped_witness:
  "clean_text '' a-\<newline> b\<newline>\<newline> c\<newline> '' = ''ab c'' \<and> NL \<notin> set ''ab c''
   \<and> \<not> py_isspace (CHR ''a'') \<and> \<not> py_isspace (last ''ab c'')"
proof -
  have e: "clean_text '' a-\<newline> b\<newline>\<newline> c\<newline> '' = ''ab c''" by code_simp
  show ?thesis
    using clean_text_flat_stripped [of "'' a-\<newline> b\<newline>\<newline> c\<newline> ''"] unfolding e by simp
qed

section \<open>Properties of \<open>delete_references\<close>\<close>

text \<open>
  Claim C2. The specification looks for the closing heading after the start of the
  references; \<open>delete_references\<close> looks for it in the whole text. On a text whose
  appendix heading stands before the references heading the two differ: the program
  returns the text up to the references followed by everything from the appendix heading
  on, the specification the text up to the references.
\<close>

theorem delete_references_heading_before_start:
  "delete_references ''a\<newline>Appendices\<newline>b\<newline>References\<newline>c''
     = ''a\<newline>Appendices\<newline>b\<newline>Appendices\<newline>b\<newline>References\<newline>c'' \<and>
   delete_references_spec ''a\<newline>Appendices\<newline>b\<newline>References\<newline>c''
     = ''a\<newline>Appendices\<newline>b''"
  by code_simp

text \<open>Where the closing heading follows the references, the program does what the specification says.\<close>

lemma delete_references_spec_example:
  "delete_references ''x\<newline>References\<newline>[1] Smith\<newline>Supplemental Material\<newline>More text''
     = ''x\<newline>Supplemental Material\<newline>More text'' \<and>
   delete_references_spec ''x\<newline>References\<newline>[1] Smith\<newline>Supplemental Material\<newline>More text''
     = ''x\<newline>Supplemental Material\<newline>More text''"
  by code_simp

text \<open>
  The two differ in that case only: whenever no closing heading begins before the start
  of the references, the program returns what the specification describes.
\<close>

lemma search_from_later:
  "search_from r i s = Some (e, m) \<Longrightarrow> i + k \<le> e \<Longrightarrow> search_from r (i + k) (drop k s) = Some (e, m)"
proof (induction s arbitrary: i k)
  case Nil
  then show ?case by (auto split: list.splits prod.splits)
next
  case (Cons c cs)
  show ?case
  proof (cases k)
    case 0
    with Cons.prems show ?thesis by simp
  next
    case (Suc j)
    with Cons.prems have none: "matches r (c # cs) = []"
      by (auto split: list.splits prod.splits)
    with Cons.prems have "search_from r (Suc i) cs = Some (e, m)" by simp
    from Cons.IH [OF this, of j] Cons.prems(2) Suc show ?thesis by simp
  qed
qed

lemma search_from_none_anywhere:
  "search_from r i s = None \<Longrightarrow> search_from r j s = None"
  by (induction s arbitrary: i j) (auto split: list.splits prod.splits)

lemma search_from_none_later:
  "search_from r i s = None \<Longrightarrow> search_from r j (drop k s) = None"
proof (induction s arbitrary: i j k)
  case Nil
  then show ?case by (auto split: list.splits prod.splits)
next
  case (Cons c cs)
  show ?case
  proof (cases k)
    case 0
    with search_from_none_anywhere [OF Cons.prems] show ?thesis by simp
  next
    case (Suc n)
    from Cons.prems have "search_from r (Suc i) cs = None"
      by (auto split: list.splits prod.splits)
    from Cons.IH [OF this] Suc show ?thesis by simp
  qed
qed

lemma delete_references_agree:
  assumes "\<And>start x e y. re_search pattern_start text = Some (start, x) \<Longrightarrow>
             re_search pattern_end text = Some (e, y) \<Longrightarrow> start \<le> e"
  shows "delete_references text = delete_references_spec text"
proof (cases "re_search pattern_start text")
  case None
  then show ?thesis by (simp add: delete_references_def delete_references_spec_def)
next
  case (Some a)
  obtain start x where a: "a = (start, x)" by (cases a)
  show ?thesis
  proof (cases "re_search pattern_end text")
    case None
    then have "search_from pattern_end start (drop start text) = None"
      unfolding re_search_def by (rule search_from_none_later)
    with Some a None show ?thesis by (simp add: delete_references_def delete_references_spec_def)
  next
    case e: (Some b)
    obtain e' y where b: "b = (e', y)" by (cases b)
    from assms Some a e b have "start \<le> e'" by blast
    with e b have "search_from pattern_end start (drop start text) = Some (e', y)"
      using search_from_later [of pattern_end 0 "text" e' y start] by (simp add: re_search_def)
    with Some a e b show ?thesis by (simp add: delete_references_def delete_references_spec_def)
  qed
qed

section \<open>Properties of \<open>fetch\<close>\<close>

subsection \<open>The invariant of the loops\<close>

lemma make_paper_id: "make_paper v paper aid u sv = Inr p \<Longrightarrow> id' p = aid"
  by (auto simp: make_paper_def bind_err_def split: sum.splits prod.splits)

lemma check_entry_accepted: "check_entry v x F = Inr (Accepted p) \<Longrightarrow> id' p \<notin> F"
  by (auto simp: check_entry_def bind_err_def Let_def dest: make_paper_id
      split: item.splits sum.splits if_splits xml.splits)

lemma papers_of_append: "papers_of (xs @ ys) = papers_of xs @ papers_of ys"
  by (simp add: papers_of_def)

lemma papers_of_as_list: "papers_of (as_list v) = []"
  by (cases v) (simp_all add: papers_of_def as_list_def)

lemma entry_step_inv:
  assumes "entry_step self papers x s = Inr (s', stop)" and "fetch_inv L s"
  shows "fetch_inv L s'"
proof (cases "check_entry (valid_dt self) x (fetched_ids s)")
  case (Inl e)
  with assms show ?thesis by (simp add: entry_step_def)
next
  case (Inr v)
  show ?thesis
  proof (cases v)
    case Rejected
    with Inr assms show ?thesis by (auto simp: entry_step_def fetch_inv_def)
  next
    case Duplicate
    with Inr assms show ?thesis by (auto simp: entry_step_def)
  next
    case (Accepted p)
    from Inr Accepted have new: "id' p \<notin> fetched_ids s" by (simp add: check_entry_accepted)
    from Inr Accepted assms(1)
    have s': "s' = s\<lparr>heap := (heap s)(new_papers s := batch s @ [Paper p]),
                     fetched_ids := insert (id' p) (fetched_ids s)\<rparr>"
      by (simp add: entry_step_def Let_def)
    have p: "papers_of (batch s @ [Paper p]) = papers_of (batch s) @ [p]"
      by (simp add: papers_of_append) (simp add: papers_of_def)
    show ?thesis
      using assms(2) new unfolding fetch_inv_def s' batch_def
      by (auto simp: p [unfolded batch_def])
  qed
qed

lemma for_loop_inv:
  "for_loop self papers i s = Inr s' \<Longrightarrow> fetch_inv L s \<Longrightarrow> fetch_inv L s'"
proof (induction self papers i s rule: for_loop.induct)
  case (1 self papers i s)
  show ?case
  proof (cases "i < length (heap s papers)")
    case False
    with "1.prems" show ?thesis by (simp add: for_loop.simps [of self papers i s])
  next
    case True
    show ?thesis
    proof (cases "entry_step self papers (heap s papers ! i) s")
      case (Inl e)
      with True "1.prems" show ?thesis by (simp add: for_loop.simps [of self papers i s])
    next
      case (Inr r)
      obtain s1 stop where r: "r = (s1, stop)" by (cases r)
      have inv1: "fetch_inv L s1" using entry_step_inv Inr r "1.prems"(2) by blast
      show ?thesis
      proof (cases stop)
        case True
        with \<open>i < length (heap s papers)\<close> Inr r "1.prems"(1) inv1 show ?thesis
          by (simp add: for_loop.simps [of self papers i s])
      next
        case False
        with \<open>i < length (heap s papers)\<close> Inr r "1.prems"(1)
        have "for_loop self papers (Suc i) s1 = Inr s'"
          by (simp add: for_loop.simps [of self papers i s])
        from "1.IH" [OF \<open>i < length (heap s papers)\<close> Inr r [symmetric] False this inv1]
        show ?thesis .
      qed
    qed
  qed
qed

lemma new_list_inv:
  "new_list (as_list v) s = (papers, s1) \<Longrightarrow> fetch_inv L s \<Longrightarrow> fetch_inv L s1"
  by (auto simp: new_list_def fetch_inv_def papers_of_as_list split: if_splits)

lemma while_loop_inv:
  assumes "while_loop self b k st s = Some r"
  shows "fetch_inv L s \<longrightarrow> (\<forall>s'. r = Completed s' \<longrightarrow> fetch_inv L s')"
  using assms
proof (induction rule: while_loop.raw_induct [rotated 1, consumes 1, case_names step])
  case (step loop self b k st s r)
  note IH = step(1) and body = step(2)
  show ?case
  proof
    assume inv: "fetch_inv L s"
    show "\<forall>s'. r = Completed s' \<longrightarrow> fetch_inv L s'"
    proof (cases "int (length (batch s)) < max_results self")
      case False
      with body inv show ?thesis by auto
    next
      case True
      show ?thesis
      proof (cases "bind_err (urlopen self k st (min b (max_results self - int (length (batch s))))) feed_entries")
        case (Inl e)
        with True body show ?thesis by (auto simp: Let_def)
      next
        case (Inr v)
        show ?thesis
        proof (cases "truthy v")
          case False
          with Inr True body show ?thesis by (auto simp: Let_def)
        next
          case tv: True
          obtain papers s1 where nl: "new_list (as_list v) s = (papers, s1)"
            by (cases "new_list (as_list v) s")
          have inv1: "fetch_inv L s1" using new_list_inv nl inv by blast
          show ?thesis
          proof (cases "for_loop self papers 0 s1")
            case (Inl e)
            with tv Inr True nl body show ?thesis by (auto simp: Let_def)
          next
            case fl: (Inr s2)
            have inv2: "fetch_inv L s2" using for_loop_inv fl inv1 by blast
            from tv Inr True nl fl body
            have "loop self b (Suc k) (st + b) s2 = Some r" by (simp add: Let_def)
            from IH [OF this] inv2 show ?thesis by blast
          qed
        qed
      qed
    qed
  qed
qed

lemma reaches_while_loop:
  "reaches self b ledger k st s \<Longrightarrow>
     while_loop self b 0 0 (initial_state (fetched_ids_of ledger)) = while_loop self b k st s"
proof (induction rule: reaches.induct)
  case reaches_start
  show ?case by simp
next
  case (reaches_next k st s v papers s1 s2)
  have "while_loop self b k st s = while_loop self b (Suc k) (st + b) s2"
    using reaches_next.hyps by (subst while_loop.simps) (simp add: Let_def)
  with reaches_next.IH show ?case by simp
qed

subsection \<open>Rejected entries\<close>

text \<open>
  Claim C1. A rejected entry should be skipped alone. In the program it takes the batch
  with it. With \<open>max_results = 1\<close>, the page \<open>[1111]\<close> gives the record 1111 and its line in
  the ledger; with the entry 2222 without summary in front of it, the same call returns
  the empty list and writes nothing. With \<open>max_results = 2\<close>, the page \<open>[1111, 3333]\<close> gives
  both records; with the entry 2222 between them the record 1111, accepted before the
  rejection, is lost with the rest. A call that skipped the entry 2222 alone would return
  in each case what it returns on the page without it.
\<close>

theorem fetch_rejection_drops_batch:
  "fetch (feed_of 1 (XList [entry_ok ''1111''])) 100 None
     = Some (Inr [paper_of ''1111''], Some (''1111'' @ [NL])) \<and>
   fetch (feed_of 1 (XList [entry_no_summary ''2222'', entry_ok ''1111''])) 100 None
     = Some (Inr [], None) \<and>
   fetch (feed_of 2 (XList [entry_ok ''1111'', entry_ok ''3333''])) 100 None
     = Some (Inr [paper_of ''1111'', paper_of ''3333''], Some (''1111'' @ [NL] @ ''3333'' @ [NL])) \<and>
   fetch (feed_of 2 (XList [entry_ok ''1111'', entry_no_summary ''2222'', entry_ok ''3333''])) 100 None
     = Some (Inr [], None)"
  by code_simp

subsection \<open>Identifiers of the ledger\<close>

text \<open>
  Claim C3. When \<open>fetch\<close> returns a list, no record of it has an identifier that the
  ledger file held when the call started, and no two records of it share an identifier.
\<close>

theorem fetch_skips_ledger:
  assumes "fetch self b ledger = Some (Inr ps, ledger')"
  shows "(\<forall>p \<in> set ps. id' p \<notin> fetched_ids_of ledger) \<and> distinct (map id' ps)"
proof (cases "while_loop self b 0 0 (initial_state (fetched_ids_of ledger))")
  case None
  with assms show ?thesis by (simp add: fetch_def)
next
  case (Some r)
  have init: "fetch_inv (fetched_ids_of ledger) (initial_state (fetched_ids_of ledger))"
    by (simp add: fetch_inv_def initial_state_def papers_of_def)
  show ?thesis
  proof (cases r)
    case (Raised e)
    with Some assms show ?thesis by (simp add: fetch_def)
  next
    case Returned_empty
    with Some assms show ?thesis by (simp add: fetch_def)
  next
    case (Completed s)
    with while_loop_inv [OF Some] init have inv: "fetch_inv (fetched_ids_of ledger) s" by blast
    from Some Completed assms have "ps = [] \<or> ps = papers_of (batch s)"
      by (auto simp: fetch_def finish_def Let_def split: if_splits)
    with inv show ?thesis by (auto simp: fetch_inv_def batch_def)
  qed
qed

theorem fetch_skips_ledger_witness:
  "fetch (feed_of 1 (XList [entry_ok ''2222'', entry_ok ''1111''])) 100 (Some (''2222'' @ [NL]))
     = Some (Inr [paper_of ''1111''], Some (''2222'' @ [NL] @ ''1111'' @ [NL])) \<and>
   ''2222'' \<in> fetched_ids_of (Some (''2222'' @ [NL])) \<and>
   id' (paper_of ''1111'') \<notin> fetched_ids_of (Some (''2222'' @ [NL]))"
proof -
  have e: "fetch (feed_of 1 (XList [entry_ok ''2222'', entry_ok ''1111''])) 100 (Some (''2222'' @ [NL]))
     = Some (Inr [paper_of ''1111''], Some (''2222'' @ [NL] @ ''1111'' @ [NL]))"
    by code_simp
  have m: "''2222'' \<in> fetched_ids_of (Some (''2222'' @ [NL]))" by code_simp
  from fetch_skips_ledger [OF e] e m show ?thesis by simp
qed

subsection \<open>Writing the ledger\<close>

text \<open>
  A call of \<open>fetch\<close> that ends leaves the ledger as it was, or appends to it once the
  identifiers of the records it returns; it appends only when the loop has ended with a
  batch of records only. When the loop ends with a batch that holds an element that is
  not a record, the ledger is left as it was and the empty list is returned; the ledger
  is also left as it was when the call returns early or raises.
\<close>

lemma fetch_ledger_cases:
  assumes "fetch self b ledger = Some (r, ledger')"
  shows "(\<exists>s. while_loop self b 0 0 (initial_state (fetched_ids_of ledger)) = Some (Completed s) \<and>
            list_all is_paper (batch s) \<and> r = Inr (papers_of (batch s)) \<and>
            ledger' = append_ids ledger (papers_of (batch s)))
       \<or> (\<exists>s. while_loop self b 0 0 (initial_state (fetched_ids_of ledger)) = Some (Completed s) \<and>
            (\<exists>x \<in> set (batch s). is_raw x) \<and> r = Inr [] \<and> ledger' = ledger)
       \<or> (while_loop self b 0 0 (initial_state (fetched_ids_of ledger)) = Some Returned_empty \<and>
            r = Inr [] \<and> ledger' = ledger)
       \<or> (\<exists>e. while_loop self b 0 0 (initial_state (fetched_ids_of ledger)) = Some (Raised e) \<and>
            r = Inl e \<and> ledger' = ledger)"
proof (cases "while_loop self b 0 0 (initial_state (fetched_ids_of ledger))")
  case None
  with assms show ?thesis by (simp add: fetch_def)
next
  case (Some w)
  show ?thesis
  proof (cases w)
    case (Raised e)
    with Some assms show ?thesis by (auto simp: fetch_def)
  next
    case Returned_empty
    with Some assms show ?thesis by (auto simp: fetch_def)
  next
    case (Completed s)
    have raw: "\<not> list_all is_paper (batch s) \<Longrightarrow> \<exists>x \<in> set (batch s). is_raw x"
      by (auto simp: list_all_iff is_paper_def is_raw_def split: item.splits)
    show ?thesis
    proof (cases "list_all is_paper (batch s)")
      case True
      with Some Completed assms show ?thesis by (auto simp: fetch_def finish_def)
    next
      case False
      with Some Completed assms raw show ?thesis by (auto simp: fetch_def finish_def)
    qed
  qed
qed

text \<open>
  Claim C4. A batch that holds an element that is not a record should make the call
  return the empty list. After a rejection the batch is the page itself, to which the
  record of the next entry is appended. With \<open>max_results = 3\<close> the loop over the page ends
  there and the call returns the empty list; with \<open>max_results = 4\<close> the loop goes on to
  the record it has just appended, which has no method \<open>get\<close>, and the call raises
  \<open>AttributeError\<close>. The ledger is left as it was in both cases.
\<close>

theorem fetch_raises_on_mixed_batch:
  "fetch (feed_of 3 (XList [entry_no_summary ''2222'', entry_ok ''1111''])) 100 None
     = Some (Inr [], None) \<and>
   fetch (feed_of 4 (XList [entry_no_summary ''2222'', entry_ok ''1111''])) 100 None
     = Some (Inl AttributeError, None)"
  by code_simp

subsection \<open>A page without entries\<close>

text \<open>
  Claim C6. When the call comes to its loop test in any state, with whatever records
  it has accumulated, and the page it then requests has no entries, it returns the empty
  list and leaves the ledger file as it was.
\<close>

theorem fetch_empty_page:
  assumes "reaches self b ledger k st s"
    and "int (length (batch s)) < max_results self"
    and "bind_err (urlopen self k st (min b (max_results self - int (length (batch s))))) feed_entries = Inr v"
    and "\<not> truthy v"
  shows "fetch self b ledger = Some (Inr [], ledger)"
proof -
  have "while_loop self b k st s = Some Returned_empty"
    using assms(2-4) by (subst while_loop.simps) (simp add: Let_def)
  with reaches_while_loop [OF assms(1)] show ?thesis by (simp add: fetch_def)
qed

lemma check_entry_ok:
  "check_entry (\<lambda>_. True) (Raw (entry_ok ''1111'')) {} = Inr (Accepted (paper_of ''1111''))"
  by code_simp

theorem fetch_empty_page_witness:
  "fetch (feed_of 2 (entry_ok ''1111'')) 100 None = Some (Inr [], None) \<and>
   (\<exists>s. reaches (feed_of 2 (entry_ok ''1111'')) 100 None 1 100 s \<and> batch s = [Paper (paper_of ''1111'')])"
proof -
  let ?W = "feed_of 2 (entry_ok ''1111'')"
  define s0 where "s0 = initial_state (fetched_ids_of None)"
  define s1 where "s1 = s0\<lparr>heap := (heap s0)(1 := [Raw (entry_ok ''1111'')]), next_addr := 2\<rparr>"
  define s2 where "s2 = s1\<lparr>heap := (heap s1)(0 := [Paper (paper_of ''1111'')]),
                         fetched_ids := {''1111''}\<rparr>"
  have r0: "reaches ?W 100 None 0 0 s0" unfolding s0_def by (rule reaches_start)
  have b0: "batch s0 = []" by (simp add: s0_def batch_def initial_state_def)
  have c0: "int (length (batch s0)) < max_results ?W" by (simp add: b0 feed_of_def)
  have p0: "bind_err (urlopen ?W 0 0 (min 100 (max_results ?W - int (length (batch s0))))) feed_entries
      = Inr (entry_ok ''1111'')"
    by (simp add: feed_of_def one_page_def bind_err_def feed_entries_def dict_get_def)
  have t0: "truthy (entry_ok ''1111'')" by (simp add: entry_ok_def truthy_def)
  have n0: "new_list (as_list (entry_ok ''1111'')) s0 = (1, s1)"
    by (simp add: new_list_def as_list_def entry_ok_def s1_def s0_def initial_state_def)
  have h1: "heap s1 (Suc 0) = [Raw (entry_ok ''1111'')]" by (simp add: s1_def)
  have st: "entry_step ?W (Suc 0) (Raw (entry_ok ''1111'')) s1 = Inr (s2, False)"
    by (simp add: entry_step_def feed_of_def s1_def s0_def initial_state_def fetched_ids_of_def
        check_entry_ok batch_def s2_def paper_of_def)
  have h2: "heap s2 (Suc 0) = [Raw (entry_ok ''1111'')]" by (simp add: s2_def s1_def)
  have f0: "for_loop ?W 1 0 s1 = Inr s2"
    by (simp add: for_loop.simps [of _ _ 0 s1] for_loop.simps [of _ _ "Suc 0" s2] h1 h2 st)
  have r1: "reaches ?W 100 None 1 100 s2"
    using reaches_next [OF r0 c0 p0 t0 n0 f0] by simp
  have b2: "batch s2 = [Paper (paper_of ''1111'')]"
    by (simp add: batch_def s2_def s1_def s0_def initial_state_def)
  have c1: "int (length (batch s2)) < max_results ?W" by (simp add: b2 feed_of_def)
  have p1: "bind_err (urlopen ?W 1 100 (min 100 (max_results ?W - int (length (batch s2))))) feed_entries
      = Inr (XList [])"
    by (simp add: feed_of_def one_page_def bind_err_def feed_entries_def dict_get_def)
  have t1: "\<not> truthy (XList [])" by (simp add: truthy_def)
  from fetch_empty_page [OF r1 c1 p1 t1] r1 b2 show ?thesis by blast
qed

section \<open>Properties of \<open>get_text\<close>\<close>

text \<open>
  What \<open>get_text\<close> does on a path that names no file or does not end in \<open>.pdf\<close>, and on a
  loader that is not available: the value is the empty list, and the log has a record
  only for the empty path and for a valid path with an unavailable loader. When
  \<open>Path.exists\<close> raises, so does \<open>get_text\<close>.
\<close>

lemma get_text_early_exits:
  assumes "\<not> exists_error backend (py_str pdf_path)"
    and "files (py_str pdf_path) = None \<or> \<not> endswith (py_str pdf_path) ''.pdf''
           \<or> loader \<notin> set available_loaders"
  shows "get_text backend files pdf_path loader =
           (Inr EmptyList,
            if py_str pdf_path = []
            then [(Error, ''No PDF path provided. Returning an empty string for the text.'')]
            else if files (py_str pdf_path) \<noteq> None \<and> endswith (py_str pdf_path) ''.pdf''
            then [(Error, loader_message loader)]
            else [])"
  using assms
  by (auto simp: get_text_def check_pdf_path_def Let_def endswith_def)

lemma get_text_exists_raises:
  assumes "py_str pdf_path \<noteq> []" and "exists_error backend (py_str pdf_path)"
  shows "get_text backend files pdf_path loader = (Inl OSError, [])"
  using assms by (simp add: get_text_def check_pdf_path_def Let_def)

text \<open>
  Claim C5. For the path of a file that does not exist, and for the path \<open>None\<close>,
  \<open>get_text\<close> returns the empty list, not the empty string, and logs nothing. For a file
  name of 304 characters the call of \<open>Path.exists\<close> raises \<open>OSError\<close>, and \<open>get_text\<close> with it.
\<close>

theorem get_text_missing_file:
  "get_text text_of_file no_files (Some ''paper.pdf'') ''pdfminer'' = (Inr EmptyList, []) \<and>
   get_text text_of_file no_files None ''pdfminer'' = (Inr EmptyList, []) \<and>
   get_text text_of_file no_files (Some (replicate 300 (CHR ''a'') @ ''.pdf'')) ''pdfminer''
     = (Inl OSError, [])"
  by code_simp

section \<open>Properties of \<open>download_pdf\<close>\<close>

text \<open>
  Claim C10. With \<open>write=False\<close> the content folder is left as it was, whatever the
  server answers. The result is the path of the record's PDF in the data folder when the
  server answers with a status that \<open>raise_for_status\<close> accepts, and \<open>None\<close> when it answers
  with a status from 400 to 599 or the request fails.
\<close>

theorem download_pdf_without_write:
  "snd (download_pdf self paper False files) = files \<and>
   (\<forall>status body ok. session_get self (pdf_url paper) = Response status body ok \<longrightarrow>
        \<not> (400 \<le> status \<and> status < 600) \<longrightarrow>
        fst (download_pdf self paper False files)
          = Some (joinpath self (data_folder self) (id' paper @ ''.pdf''))) \<and>
   (\<forall>status body ok. session_get self (pdf_url paper) = Response status body ok \<longrightarrow>
        400 \<le> status \<and> status < 600 \<longrightarrow> fst (download_pdf self paper False files) = None) \<and>
   (session_get self (pdf_url paper) = RequestException \<longrightarrow>
        fst (download_pdf self paper False files) = None)"
  by (auto simp: download_pdf_def Let_def split: http_result.splits)

theorem download_pdf_without_write_witness:
  "download_pdf local_folder (paper_of ''1111'') False no_files = (Some ''data/1111.pdf'', no_files)"
  using download_pdf_without_write [of local_folder "paper_of ''1111''" no_files]
  by (auto simp: prod_eq_iff local_folder_def paper_of_def pdf_server_def slash_def)

section \<open>Properties of \<open>download_pattern_papers\<close>\<close>

subsection \<open>The download and the extraction of one record\<close>

lemma None_not_pdf: "\<not> endswith ''None'' ''.pdf''"
  by (simp add: endswith_def suffix_to_prefix)

lemma get_text_None:
  "fst (get_text B files None l) = (if exists_error B ''None'' then Inl OSError else Inr EmptyList)"
  by (simp add: get_text_def check_pdf_path_def py_str_def None_not_pdf Let_def)

lemma get_text_frame:
  "files q = files' q \<Longrightarrow> fst (get_text B files (Some q) l) = fst (get_text B files' (Some q) l)"
  by (simp add: get_text_def check_pdf_path_def py_str_def Let_def split: option.splits sum.splits)

lemma download_pdf_cases:
  "download_pdf F p True folder = (None, folder)
   \<or> (\<exists>c. download_pdf F p True folder = (None, folder(pdf_name F p \<mapsto> c))
          \<and> download_pdf F p True Map.empty = (None, Map.empty(pdf_name F p \<mapsto> c)))
   \<or> (\<exists>c. download_pdf F p True folder = (Some (pdf_name F p), folder(pdf_name F p \<mapsto> c))
          \<and> download_pdf F p True Map.empty = (Some (pdf_name F p), Map.empty(pdf_name F p \<mapsto> c)))"
  by (auto simp: download_pdf_def pdf_name_def Let_def split: http_result.splits)

lemma download_pdf_None:
  "download_pdf F p True folder = (None, folder1) \<Longrightarrow> \<exists>folder2. download_pdf F p True Map.empty = (None, folder2)"
  by (auto simp: download_pdf_def pdf_name_def Let_def split: http_result.splits if_splits)

lemma extracted_any_folder:
  "(case download_pdf F p True folder of (pdf_path, folder1) \<Rightarrow> fst (get_text B folder1 pdf_path l))
     = extracted F B l p"
proof -
  consider (a) "download_pdf F p True folder = (None, folder)"
    | (b) c where "download_pdf F p True folder = (None, folder(pdf_name F p \<mapsto> c))"
    | (c) c where "download_pdf F p True folder = (Some (pdf_name F p), folder(pdf_name F p \<mapsto> c))"
        "download_pdf F p True Map.empty = (Some (pdf_name F p), Map.empty(pdf_name F p \<mapsto> c))"
    using download_pdf_cases [of F p folder] by blast
  then show ?thesis
  proof cases
    case a
    from download_pdf_None [OF a] obtain folder2
      where "download_pdf F p True Map.empty = (None, folder2)" by blast
    with a show ?thesis by (simp add: extracted_def get_text_None)
  next
    case b
    from download_pdf_None [OF b] obtain folder2
      where "download_pdf F p True Map.empty = (None, folder2)" by blast
    with b show ?thesis by (simp add: extracted_def get_text_None)
  next
    case c
    have "fst (get_text B (folder(pdf_name F p \<mapsto> c)) (Some (pdf_name F p)) l)
        = fst (get_text B (Map.empty(pdf_name F p \<mapsto> c)) (Some (pdf_name F p)) l)"
      by (rule get_text_frame) simp
    with c show ?thesis by (simp add: extracted_def)
  qed
qed

lemma download_pdf_frame:
  "q \<noteq> pdf_name F p \<Longrightarrow> snd (download_pdf F p True folder) q = folder q"
  by (auto simp: download_pdf_def pdf_name_def Let_def split: http_result.splits)

lemma extracted_text_path:
  assumes "text_of (extracted F B l p) \<noteq> []"
  shows "fst (download_pdf F p True folder) = Some (pdf_name F p) \<and>
         snd (download_pdf F p True folder) (pdf_name F p) \<noteq> None"
proof -
  consider (a) "download_pdf F p True folder = (None, folder)"
    | (b) c where "download_pdf F p True folder = (None, folder(pdf_name F p \<mapsto> c))"
    | (c) c where "download_pdf F p True folder = (Some (pdf_name F p), folder(pdf_name F p \<mapsto> c))"
    using download_pdf_cases [of F p folder] by blast
  then show ?thesis
  proof cases
    case a
    from download_pdf_None [OF a] obtain folder2
      where "download_pdf F p True Map.empty = (None, folder2)" by blast
    with assms show ?thesis
      by (auto simp: extracted_def get_text_None text_of_def split: if_splits)
  next
    case b
    from download_pdf_None [OF b] obtain folder2
      where "download_pdf F p True Map.empty = (None, folder2)" by blast
    with assms show ?thesis
      by (auto simp: extracted_def get_text_None text_of_def split: if_splits)
  next
    case c
    then show ?thesis by simp
  qed
qed

lemma process_paper_step:
  "process_paper F B l pat p (folder, files, all) =
     (case extracted F B l p of
        Inl e \<Rightarrow> Inl e
      | Inr t \<Rightarrow>
          if matching F B l pat p
          then Inr (snd (download_pdf F p True folder), files @ [Some (pdf_name F p)],
                    all @ [with_text F B l p])
          else if rejected F B l pat p
          then Inr ((snd (download_pdf F p True folder))(pdf_name F p := None), files, all)
          else Inr (snd (download_pdf F p True folder), files, all))"
proof -
  obtain pp folder1 where d: "download_pdf F p True folder = (pp, folder1)"
    by (cases "download_pdf F p True folder")
  have e: "fst (get_text B folder1 pp l) = extracted F B l p"
    using extracted_any_folder [where F = F and p = p and folder = folder and B = B and l = l] d
    by simp
  show ?thesis
  proof (cases "extracted F B l p")
    case (Inl err)
    with d e show ?thesis by (simp add: process_paper_def)
  next
    case (Inr t)
    show ?thesis
    proof (cases "falsy t")
      case True
      with Inr have "text_of (extracted F B l p) = []"
        by (auto simp: text_of_def falsy_def split: py_text.splits)
      with True Inr d e show ?thesis
        by (simp add: process_paper_def matching_def rejected_def)
    next
      case False
      then obtain s where tdef: "t = Str s" and nonempty: "s \<noteq> []"
        by (auto simp: falsy_def split: py_text.splits)
      with Inr have tx: "text_of (extracted F B l p) = s" by (simp add: text_of_def)
      with nonempty have "text_of (extracted F B l p) \<noteq> []" by simp
      from extracted_text_path [OF this, where folder = folder] d
      have pp: "pp = Some (pdf_name F p)" and f1: "folder1 (pdf_name F p) \<noteq> None" by auto
      from False tdef nonempty tx Inr d e pp f1 show ?thesis
        by (auto simp: process_paper_def matching_def rejected_def with_text_def unlink_def
            bind_err_def)
    qed
  qed
qed

lemma process_papers_append:
  "process_papers F B l pat (ps @ qs) st =
     (case process_papers F B l pat ps st of
        Inl e \<Rightarrow> Inl e
      | Inr st' \<Rightarrow> process_papers F B l pat qs st')"
  by (induction ps arbitrary: st) (simp_all split: sum.splits)

lemma process_papers_lists:
  "process_papers F B l pat papers (folder, files, all) = Inr (folder', files', all') \<Longrightarrow>
     files' = files @ map (\<lambda>p. Some (pdf_name F p)) (filter (matching F B l pat) papers) \<and>
     all' = all @ map (with_text F B l) (filter (matching F B l pat) papers)"
proof (induction papers arbitrary: folder files all)
  case Nil
  then show ?case by simp
next
  case (Cons p ps)
  from Cons.prems obtain folder1 files1 all1
    where step: "process_paper F B l pat p (folder, files, all) = Inr (folder1, files1, all1)"
      and rest: "process_papers F B l pat ps (folder1, files1, all1) = Inr (folder', files', all')"
    by (auto split: sum.splits)
  from step have
    "files1 = (if matching F B l pat p then files @ [Some (pdf_name F p)] else files) \<and>
     all1 = (if matching F B l pat p then all @ [with_text F B l p] else all)"
    by (auto simp: process_paper_step split: sum.splits if_splits)
  with Cons.IH [OF rest] show ?case by simp
qed

lemma process_papers_frame:
  "process_papers F B l pat papers (folder, files, all) = Inr (folder', files', all') \<Longrightarrow>
     q \<notin> pdf_name F ` set papers \<Longrightarrow> folder' q = folder q"
proof (induction papers arbitrary: folder files all)
  case Nil
  then show ?case by simp
next
  case (Cons p ps)
  from Cons.prems(1) obtain folder1 files1 all1
    where step: "process_paper F B l pat p (folder, files, all) = Inr (folder1, files1, all1)"
      and rest: "process_papers F B l pat ps (folder1, files1, all1) = Inr (folder', files', all')"
    by (auto split: sum.splits)
  from Cons.prems(2) have q: "q \<noteq> pdf_name F p" and qs: "q \<notin> pdf_name F ` set ps" by auto
  from step q have "folder1 q = folder q"
    by (auto simp: process_paper_step download_pdf_frame split: sum.splits if_splits)
  with Cons.IH [OF rest qs] show ?case by simp
qed

lemma process_papers_folder:
  "process_papers F B l pat papers (folder, files, all) = Inr (folder', files', all') \<Longrightarrow>
     distinct (map (pdf_name F) papers) \<Longrightarrow> p \<in> set papers \<Longrightarrow>
     folder' (pdf_name F p) =
       (if rejected F B l pat p then None
        else snd (download_pdf F p True folder) (pdf_name F p))"
proof (induction papers arbitrary: folder files all)
  case Nil
  then show ?case by simp
next
  case (Cons a ps)
  from Cons.prems(1) obtain folder1 files1 all1
    where step: "process_paper F B l pat a (folder, files, all) = Inr (folder1, files1, all1)"
      and rest: "process_papers F B l pat ps (folder1, files1, all1) = Inr (folder', files', all')"
    by (auto split: sum.splits)
  from Cons.prems(2) have fresh: "pdf_name F a \<notin> pdf_name F ` set ps"
    and dist: "distinct (map (pdf_name F) ps)" by auto
  show ?case
  proof (cases "p \<in> set ps")
    case True
    with fresh have ne: "pdf_name F p \<noteq> pdf_name F a" by (metis imageI)
    from step ne have f1: "folder1 (pdf_name F p) = folder (pdf_name F p)"
      by (auto simp: process_paper_step download_pdf_frame split: sum.splits if_splits)
    have "snd (download_pdf F p True folder1) (pdf_name F p)
        = snd (download_pdf F p True folder) (pdf_name F p)"
      using f1 by (auto simp: download_pdf_def pdf_name_def Let_def split: http_result.splits)
    with Cons.IH [OF rest dist True] show ?thesis by simp
  next
    case False
    with Cons.prems(3) have pa: "p = a" by simp
    from step have "folder1 (pdf_name F a) =
       (if rejected F B l pat a then None else snd (download_pdf F a True folder) (pdf_name F a))"
      by (auto simp: process_paper_step matching_def rejected_def Let_def
          split: sum.splits if_splits)
    with process_papers_frame [OF rest fresh] pa show ?thesis by simp
  qed
qed

lemma fetch_batches_fetch_all:
  "fetch_batches n j self b F B l pat (ledger, pst) = Some (Inr (ledger', pst')) \<Longrightarrow>
     \<exists>papers. fetch_all n j self b ledger = Some (papers, ledger') \<and>
              process_papers F B l pat papers pst = Inr pst'"
proof (induction n arbitrary: j ledger pst)
  case 0
  then show ?case by simp
next
  case (Suc n)
  from Suc.prems obtain ps ledger1 pst1
    where f: "fetch (self j) b ledger = Some (Inr ps, ledger1)"
      and pr: "process_papers F B l pat ps pst = Inr pst1"
      and rest: "fetch_batches n (Suc j) self b F B l pat (ledger1, pst1) = Some (Inr (ledger', pst'))"
    by (auto split: option.splits sum.splits prod.splits)
  from Suc.IH [OF rest] obtain qs
    where fa: "fetch_all n (Suc j) self b ledger1 = Some (qs, ledger')"
      and pq: "process_papers F B l pat qs pst1 = Inr pst'" by blast
  from f fa have "fetch_all (Suc n) j self b ledger = Some (ps @ qs, ledger')" by simp
  moreover from pr pq have "process_papers F B l pat (ps @ qs) pst = Inr pst'"
    by (simp add: process_papers_append)
  ultimately show ?case by blast
qed

subsection \<open>The result of a run\<close>

text \<open>
  Claim C7. When \<open>download_pattern_papers\<close> returns, its two lists hold, in the order of
  the fetch, the paths and the records of the matching records and of no other, each
  record with its cleaned text attached. When the fetched records have different paths,
  the file of a rejected record (text not empty, no match) is absent from the content
  folder at the end, and the file of any other record, empty text included, is as the
  download left it.
\<close>

theorem download_pattern_papers_filter:
  assumes "download_pattern_papers n self b F B l pat ledger folder
             = Some (Inr (ledger', folder', files', all'))"
  shows "\<exists>papers. fetch_all n 0 self b ledger = Some (papers, ledger') \<and>
           files' = map (\<lambda>p. Some (pdf_name F p)) (filter (matching F B l pat) papers) \<and>
           all' = map (with_text F B l) (filter (matching F B l pat) papers) \<and>
           (distinct (map (pdf_name F) papers) \<longrightarrow>
              (\<forall>p \<in> set papers.
                 folder' (pdf_name F p) =
                   (if rejected F B l pat p then None
                    else snd (download_pdf F p True folder) (pdf_name F p))))"
proof -
  from assms fetch_batches_fetch_all [of n 0 self b F B l pat ledger "(folder, [], [])" ledger' "(folder', files', all')"]
  obtain papers where fa: "fetch_all n 0 self b ledger = Some (papers, ledger')"
    and pr: "process_papers F B l pat papers (folder, [], []) = Inr (folder', files', all')"
    by (auto simp: download_pattern_papers_def)
  from process_papers_lists [OF pr] process_papers_folder [OF pr] fa show ?thesis by auto
qed

lemma example_run:
  "(case download_pattern_papers 1 (every_time (feed_of 3 three_entries)) 100 local_folder
           text_of_file ''pdfminer'' has_dmft None no_files of
      Some (Inr (ledger', folder', files', all')) \<Rightarrow>
        ledger' = Some (''1111'' @ [NL] @ ''2222'' @ [NL] @ ''3333'' @ [NL]) \<and>
        files' = [Some ''data/1111.pdf''] \<and>
        all' = [(paper_of ''1111'')\<lparr>text' := ''A DMFT study''\<rparr>] \<and>
        folder' ''data/1111.pdf'' = Some ''A DMFT study'' \<and>
        folder' ''data/2222.pdf'' = None \<and>
        folder' ''data/3333.pdf'' = Some []
    | _ \<Rightarrow> False)"
  by code_simp

lemma example_fetched:
  "fetch_all 1 0 (every_time (feed_of 3 three_entries)) 100 None
     = Some ([paper_of ''1111'', paper_of ''2222'', paper_of ''3333''],
             Some (''1111'' @ [NL] @ ''2222'' @ [NL] @ ''3333'' @ [NL]))"
  by code_simp

lemma example_rejected:
  "rejected local_folder text_of_file ''pdfminer'' has_dmft (paper_of ''2222'') \<and>
   \<not> rejected local_folder text_of_file ''pdfminer'' has_dmft (paper_of ''3333'') \<and>
   matching local_folder text_of_file ''pdfminer'' has_dmft (paper_of ''1111'')"
  by code_simp

theorem download_pattern_papers_filter_witness:
  "\<exists>folder'.
      download_pattern_papers 1 (every_time (feed_of 3 three_entries)) 100 local_folder
          text_of_file ''pdfminer'' has_dmft None no_files
        = Some (Inr (Some (''1111'' @ [NL] @ ''2222'' @ [NL] @ ''3333'' @ [NL]), folder',
                     [Some ''data/1111.pdf''], [(paper_of ''1111'')\<lparr>text' := ''A DMFT study''\<rparr>])) \<and>
      folder' ''data/1111.pdf'' = Some ''A DMFT study'' \<and>
      folder' ''data/2222.pdf'' = None \<and>
      folder' ''data/3333.pdf'' = Some []"
proof -
  let ?ps = "[paper_of ''1111'', paper_of ''2222'', paper_of ''3333'']"
  from example_run obtain folder'
    where run: "download_pattern_papers 1 (every_time (feed_of 3 three_entries)) 100 local_folder
          text_of_file ''pdfminer'' has_dmft None no_files
        = Some (Inr (Some (''1111'' @ [NL] @ ''2222'' @ [NL] @ ''3333'' @ [NL]), folder',
                     [Some ''data/1111.pdf''], [(paper_of ''1111'')\<lparr>text' := ''A DMFT study''\<rparr>]))"
      and kept: "folder' ''data/1111.pdf'' = Some ''A DMFT study''" "folder' ''data/3333.pdf'' = Some []"
    by (auto split: option.splits sum.splits)
  have d: "distinct (map (pdf_name local_folder) ?ps)"
    by (simp add: pdf_name_def local_folder_def slash_def paper_of_def)
  from download_pattern_papers_filter [OF run] example_fetched d
  have "\<forall>p \<in> set ?ps. folder' (pdf_name local_folder p) =
          (if rejected local_folder text_of_file ''pdfminer'' has_dmft p then None
           else snd (download_pdf local_folder p True no_files) (pdf_name local_folder p))"
    by auto
  with example_rejected have "folder' (pdf_name local_folder (paper_of ''2222'')) = None" by simp
  then have "folder' ''data/2222.pdf'' = None"
    by (simp add: pdf_name_def local_folder_def slash_def paper_of_def)
  with run kept show ?thesis by blast
qed

end
